theory Spec2Isabelle
  imports Complex_Main "HOL-Library.Multiset_Order"
begin

section \<open>JavaScript numbers\<close>

text \<open>
  Coordinates, sizes and areas are JavaScript numbers.  They are modelled as exact
  rationals extended with the two infinities and NaN; rounding is not modelled.
  Comparisons with NaN are false, \<open>Math.max\<close> and \<open>Math.min\<close> propagate NaN.
\<close>

datatype jsnum = Fin rat | PInf | NInf | NaN

fun js_neg :: "jsnum \<Rightarrow> jsnum" where
  "js_neg (Fin a) = Fin (- a)"
| "js_neg PInf = NInf"
| "js_neg NInf = PInf"
| "js_neg NaN = NaN"

fun js_add :: "jsnum \<Rightarrow> jsnum \<Rightarrow> jsnum" where
  "js_add NaN b = NaN"
| "js_add a NaN = NaN"
| "js_add (Fin a) (Fin b) = Fin (a + b)"
| "js_add PInf NInf = NaN"
| "js_add NInf PInf = NaN"
| "js_add PInf b = PInf"
| "js_add a PInf = PInf"
| "js_add NInf b = NInf"
| "js_add a NInf = NInf"

definition js_sub :: "jsnum \<Rightarrow> jsnum \<Rightarrow> jsnum" where
  "js_sub a b = js_add a (js_neg b)"

fun js_mul :: "jsnum \<Rightarrow> jsnum \<Rightarrow> jsnum" where
  "js_mul NaN b = NaN"
| "js_mul a NaN = NaN"
| "js_mul (Fin a) (Fin b) = Fin (a * b)"
| "js_mul (Fin a) b = (if a = 0 then NaN else if (0 < a) = (b = PInf) then PInf else NInf)"
| "js_mul a (Fin b) = (if b = 0 then NaN else if (0 < b) = (a = PInf) then PInf else NInf)"
| "js_mul a b = (if a = b then PInf else NInf)"

fun js_lt :: "jsnum \<Rightarrow> jsnum \<Rightarrow> bool" where
  "js_lt NaN b = False"
| "js_lt a NaN = False"
| "js_lt (Fin a) (Fin b) = (a < b)"
| "js_lt PInf b = False"
| "js_lt a NInf = False"
| "js_lt NInf b = True"
| "js_lt a PInf = True"

fun js_le :: "jsnum \<Rightarrow> jsnum \<Rightarrow> bool" where
  "js_le NaN b = False"
| "js_le a NaN = False"
| "js_le (Fin a) (Fin b) = (a \<le> b)"
| "js_le NInf b = True"
| "js_le a PInf = True"
| "js_le PInf b = False"
| "js_le a NInf = False"

definition js_gt :: "jsnum \<Rightarrow> jsnum \<Rightarrow> bool" where
  "js_gt a b = js_lt b a"

definition js_ge :: "jsnum \<Rightarrow> jsnum \<Rightarrow> bool" where
  "js_ge a b = js_le b a"

text \<open>Strict equality \<open>===\<close> on numbers: NaN is not equal to itself.\<close>

definition js_eq :: "jsnum \<Rightarrow> jsnum \<Rightarrow> bool" where
  "js_eq a b = (a \<noteq> NaN \<and> a = b)"

definition js_max :: "jsnum \<Rightarrow> jsnum \<Rightarrow> jsnum" where
  "js_max a b = (if a = NaN \<or> b = NaN then NaN else if js_lt a b then b else a)"

definition js_min :: "jsnum \<Rightarrow> jsnum \<Rightarrow> jsnum" where
  "js_min a b = (if a = NaN \<or> b = NaN then NaN else if js_lt b a then b else a)"

definition isNaN :: "jsnum \<Rightarrow> bool" where
  "isNaN a = (a = NaN)"

section \<open>The rectangle type\<close>

text \<open>
  Modelled from the spec: the class \<open>Rect2\<close> (imported from \<open>./math/Rect2\<close>) is not among
  the sources.  The spec lists it as the supplied geometry type: an axis-aligned rectangle
  with union, intersects (boolean), intersection (nullable overlap rectangle),
  contains-rect (boolean), area (number) and an equality test.  A rectangle is the closed
  region from \<open>(x, y)\<close> to \<open>(x + w, y + h)\<close>; \<open>Rect2.empty\<close> is the rectangle of zero size at
  the origin.  The index calls \<open>eq\<close> without a tolerance, so equality is exact.
\<close>

record Rect2 =
  rect_x :: jsnum
  rect_y :: jsnum
  rect_w :: jsnum
  rect_h :: jsnum

definition Rect2_empty :: Rect2 where
  "Rect2_empty = \<lparr>rect_x = Fin 0, rect_y = Fin 0, rect_w = Fin 0, rect_h = Fin 0\<rparr>"

definition max_x :: "Rect2 \<Rightarrow> jsnum" where
  "max_x r = js_add (rect_x r) (rect_w r)"

definition max_y :: "Rect2 \<Rightarrow> jsnum" where
  "max_y r = js_add (rect_y r) (rect_h r)"

definition area :: "Rect2 \<Rightarrow> jsnum" where
  "area r = js_mul (rect_w r) (rect_h r)"

definition fromCorners :: "jsnum \<Rightarrow> jsnum \<Rightarrow> jsnum \<Rightarrow> jsnum \<Rightarrow> Rect2" where
  "fromCorners x1 y1 x2 y2 =
     \<lparr>rect_x = x1, rect_y = y1, rect_w = js_sub x2 x1, rect_h = js_sub y2 y1\<rparr>"

definition intersects :: "Rect2 \<Rightarrow> Rect2 \<Rightarrow> bool" where
  "intersects r other =
     (\<not> (js_lt (max_x r) (rect_x other) \<or> js_gt (rect_x r) (max_x other)) \<and>
      \<not> (js_lt (max_y r) (rect_y other) \<or> js_gt (rect_y r) (max_y other)))"

definition intersection :: "Rect2 \<Rightarrow> Rect2 \<Rightarrow> Rect2 option" where
  "intersection r other =
     (if \<not> intersects r other then None
      else Some (fromCorners (js_max (rect_x r) (rect_x other)) (js_max (rect_y r) (rect_y other))
                             (js_min (max_x r) (max_x other)) (js_min (max_y r) (max_y other))))"

definition union_rect :: "Rect2 \<Rightarrow> Rect2 \<Rightarrow> Rect2" where
  "union_rect r other =
     fromCorners (js_min (rect_x r) (rect_x other)) (js_min (rect_y r) (rect_y other))
                 (js_max (max_x r) (max_x other)) (js_max (max_y r) (max_y other))"

definition containsRect :: "Rect2 \<Rightarrow> Rect2 \<Rightarrow> bool" where
  "containsRect r other =
     (js_le (rect_x r) (rect_x other) \<and> js_le (rect_y r) (rect_y other) \<and>
      js_ge (max_x r) (max_x other) \<and> js_ge (max_y r) (max_y other))"

definition Rect2_eq :: "Rect2 \<Rightarrow> Rect2 \<Rightarrow> bool" where
  "Rect2_eq r other =
     (js_eq (rect_x r) (rect_x other) \<and> js_eq (rect_y r) (rect_y other) \<and>
      js_eq (rect_w r) (rect_w other) \<and> js_eq (rect_h r) (rect_h other))"

section \<open>Elements\<close>

text \<open>
  Modelled from the spec: the class \<open>AbstractComponent\<close> is not among the sources.  The
  index uses three accessors of an element: its bounding box, its unique id and its
  z-index.  An element is the record of these three; two elements are the same object
  when the records are equal.
\<close>

record AbstractComponent =
  getId :: string
  getBBox :: Rect2
  getZIndex :: int

section \<open>The object store\<close>

type_synonym ref = nat

text \<open>
  \<open>ImageNode\<close>: the fields of the class.  \<open>targetChildCount\<close> is initialised to 30 in every
  instance and never assigned, so it is a constant.  The field \<open>id\<close> is \<open>id_node\<close> here.
\<close>

record ImageNode =
  content :: "AbstractComponent option"
  bbox :: Rect2
  children :: "ref list"
  parent :: "ref option"
  id_node :: nat

definition targetChildCount :: nat where
  "targetChildCount = 30"

text \<open>
  Nodes are objects that refer to each other (children and parent), so they live in a
  store addressed by references; \<open>nextRef\<close> is the next unused address, which the
  constructor takes.  \<open>idCounter\<close> is the static field \<open>ImageNode.idCounter\<close>: one
  counter for the whole program.
\<close>

record world =
  heap :: "ref \<Rightarrow> ImageNode"
  nextRef :: ref
  idCounter :: nat

datatype error = NaNBBoxError | TypeError | OutOfFuel

definition setContent :: "ref \<Rightarrow> AbstractComponent option \<Rightarrow> world \<Rightarrow> world" where
  "setContent r c s = s\<lparr>heap := (heap s)(r := (heap s r)\<lparr>content := c\<rparr>)\<rparr>"

definition setBBox :: "ref \<Rightarrow> Rect2 \<Rightarrow> world \<Rightarrow> world" where
  "setBBox r b s = s\<lparr>heap := (heap s)(r := (heap s r)\<lparr>bbox := b\<rparr>)\<rparr>"

definition setChildren :: "ref \<Rightarrow> ref list \<Rightarrow> world \<Rightarrow> world" where
  "setChildren r cs s = s\<lparr>heap := (heap s)(r := (heap s r)\<lparr>children := cs\<rparr>)\<rparr>"

definition setParent :: "ref \<Rightarrow> ref option \<Rightarrow> world \<Rightarrow> world" where
  "setParent r p s = s\<lparr>heap := (heap s)(r := (heap s r)\<lparr>parent := p\<rparr>)\<rparr>"

text \<open>The constructor \<open>new ImageNode(parent)\<close>.\<close>

definition newImageNode :: "ref option \<Rightarrow> world \<Rightarrow> ref \<times> world" where
  "newImageNode p s =
     (nextRef s,
      s\<lparr>heap := (heap s)(nextRef s :=
             \<lparr>content = None, bbox = Rect2_empty, children = [], parent = p,
              id_node = idCounter s\<rparr>),
        nextRef := nextRef s + 1,
        idCounter := idCounter s + 1\<rparr>)"

definition onContentChange :: "ref \<Rightarrow> world \<Rightarrow> world" where
  "onContentChange this s =
     s\<lparr>heap := (heap s)(this := (heap s this)\<lparr>id_node := idCounter s\<rparr>),
       idCounter := idCounter s + 1\<rparr>"

definition getChildrenIntersectingRegion :: "world \<Rightarrow> ref \<Rightarrow> Rect2 \<Rightarrow> ref list" where
  "getChildrenIntersectingRegion s this region =
     filter (\<lambda>child. intersects (bbox (heap s child)) region) (children (heap s this))"

text \<open>
  \<open>getLeavesIntersectingRegion\<close>: the loop \<open>while (workList.length > 0) toNext()\<close>.  The
  work list is an array used as a stack: \<open>pop\<close> takes its last entry.  Every loop and
  recursion over the store takes fuel; running out of it is \<open>Inl OutOfFuel\<close>.
\<close>

fun toNextLoop ::
  "nat \<Rightarrow> world \<Rightarrow> Rect2 \<Rightarrow> (Rect2 \<Rightarrow> bool) option \<Rightarrow> ref list \<Rightarrow> ref list \<Rightarrow> error + ref list"
where
  "toNextLoop fuel s region isTooSmall [] result = Inr result"
| "toNextLoop 0 s region isTooSmall (v # va) result = Inl OutOfFuel"
| "toNextLoop (Suc fuel) s region isTooSmall (v # va) result =
     (let workList = butlast (v # va);
          next = last (v # va)
      in if \<not> (case isTooSmall of None \<Rightarrow> False | Some f \<Rightarrow> f (bbox (heap s next))) then
           toNextLoop fuel s region isTooSmall
             (workList @ getChildrenIntersectingRegion s next region)
             (if content (heap s next) \<noteq> None \<and> intersection (bbox (heap s next)) region \<noteq> None
              then result @ [next] else result)
         else toNextLoop fuel s region isTooSmall workList result)"

definition getLeavesIntersectingRegion ::
  "nat \<Rightarrow> world \<Rightarrow> ref \<Rightarrow> Rect2 \<Rightarrow> (Rect2 \<Rightarrow> bool) option \<Rightarrow> error + ref list"
where
  "getLeavesIntersectingRegion fuel s this region isTooSmall =
     toNextLoop fuel s region isTooSmall [this] []"

text \<open>\<open>getLeaves\<close>: \<open>getLeavesOf\<close> is the loop over the children.\<close>

fun getLeavesOf :: "nat \<Rightarrow> world \<Rightarrow> ref list \<Rightarrow> ref list \<Rightarrow> error + ref list" where
  "getLeavesOf fuel s [] result = Inr result"
| "getLeavesOf fuel s (child # rest) result =
     (case (if content (heap s child) \<noteq> None then Inr [child]
            else (case fuel of
                    0 \<Rightarrow> Inl OutOfFuel
                  | Suc f \<Rightarrow> getLeavesOf f s (children (heap s child)) [])) of
        Inl e \<Rightarrow> Inl e
      | Inr ls \<Rightarrow> getLeavesOf fuel s rest (result @ ls))"

definition getLeaves :: "nat \<Rightarrow> world \<Rightarrow> ref \<Rightarrow> error + ref list" where
  "getLeaves fuel s this =
     (if content (heap s this) \<noteq> None then Inr [this]
      else getLeavesOf fuel s (children (heap s this)) [])"

text \<open>
  \<open>recomputeBBox\<close>.  \<open>childrenBBox\<close> is its loop over the children; the accumulator is
  \<open>this.bbox\<close>, which the loop assigns, so a child that is \<open>this\<close> itself reads the
  accumulator.
\<close>

fun childrenBBox :: "world \<Rightarrow> ref \<Rightarrow> ref list \<Rightarrow> bool \<Rightarrow> Rect2 \<Rightarrow> Rect2" where
  "childrenBBox s this [] isFirst acc = acc"
| "childrenBBox s this (child # rest) isFirst acc =
     (let cb = (if child = this then acc else bbox (heap s child))
      in childrenBBox s this rest False (if isFirst then cb else union_rect acc cb))"

fun recomputeBBox :: "nat \<Rightarrow> ref \<Rightarrow> bool \<Rightarrow> world \<Rightarrow> error + world" where
  "recomputeBBox 0 this bubbleUp s = Inl OutOfFuel"
| "recomputeBBox (Suc fuel) this bubbleUp s =
     (let oldBBox = bbox (heap s this);
          newBBox = (case content (heap s this) of
                       Some c \<Rightarrow> getBBox c
                     | None \<Rightarrow> childrenBBox s this (children (heap s this)) True Rect2_empty);
          s1 = setBBox this newBBox s
      in if bubbleUp \<and> \<not> Rect2_eq oldBBox newBBox then
           (case parent (heap s1 this) of
              None \<Rightarrow> Inr s1
            | Some p \<Rightarrow> recomputeBBox fuel p True s1)
         else Inr s1)"

text \<open>\<open>updateParents\<close>: \<open>updateParentsOf\<close> is the loop over the children.\<close>

fun updateParentsOf :: "nat \<Rightarrow> ref \<Rightarrow> bool \<Rightarrow> ref list \<Rightarrow> world \<Rightarrow> error + world" where
  "updateParentsOf fuel this recursive [] s = Inr s"
| "updateParentsOf fuel this recursive (child # rest) s =
     (let s1 = setParent child (Some this) s
      in case (if recursive then
                 (case fuel of
                    0 \<Rightarrow> Inl OutOfFuel
                  | Suc f \<Rightarrow> updateParentsOf f child recursive (children (heap s1 child)) s1)
               else Inr s1) of
           Inl e \<Rightarrow> Inl e
         | Inr s2 \<Rightarrow> updateParentsOf fuel this recursive rest s2)"

definition updateParents :: "nat \<Rightarrow> ref \<Rightarrow> bool \<Rightarrow> world \<Rightarrow> error + world" where
  "updateParents fuel this recursive s =
     updateParentsOf fuel this recursive (children (heap s this)) s"

text \<open>\<open>rebalance\<close>.\<close>

definition rebalance :: "nat \<Rightarrow> ref \<Rightarrow> world \<Rightarrow> error + world" where
  "rebalance fuel this s =
     (case parent (heap s this) of
        None \<Rightarrow> Inr s
      | Some oldParent \<Rightarrow>
          if length (children (heap s oldParent)) = 1 then
            (case parent (heap s oldParent) of
               Some grandParent \<Rightarrow>
                 (let s1 = setChildren oldParent [] s;
                      s2 = setParent this (Some grandParent) s1;
                      s3 = setChildren grandParent (children (heap s2 grandParent) @ [this]) s2;
                      s4 = setParent oldParent None s3
                  in case parent (heap s4 this) of
                       None \<Rightarrow> Inl TypeError
                     | Some p \<Rightarrow> recomputeBBox fuel p False s4)
             | None \<Rightarrow>
                 if content (heap s this) = None then
                   (let s1 = setChildren oldParent (children (heap s this)) s
                    in case updateParents fuel oldParent False s1 of
                         Inl e \<Rightarrow> Inl e
                       | Inr s2 \<Rightarrow> Inr (setParent this None s2))
                 else Inr s)
          else Inr s)"

fun rebalanceAll :: "nat \<Rightarrow> ref list \<Rightarrow> world \<Rightarrow> error + world" where
  "rebalanceAll fuel [] s = Inr s"
| "rebalanceAll fuel (child # rest) s =
     (case rebalance fuel child s of
        Inl e \<Rightarrow> Inl e
      | Inr s1 \<Rightarrow> rebalanceAll fuel rest s1)"

text \<open>\<open>remove\<close>.\<close>

definition remove :: "nat \<Rightarrow> ref \<Rightarrow> world \<Rightarrow> error + world" where
  "remove fuel this s =
     (case parent (heap s this) of
        None \<Rightarrow> Inr (setChildren this [] (setContent this None s))
      | Some p \<Rightarrow>
          (let s1 = setChildren p (filter (\<lambda>n. n \<noteq> this) (children (heap s p))) s
           in case rebalanceAll fuel (children (heap s1 p)) s1 of
                Inl e \<Rightarrow> Inl e
              | Inr s2 \<Rightarrow>
                  (case parent (heap s2 this) of
                     None \<Rightarrow> Inl TypeError
                   | Some p2 \<Rightarrow>
                       (case recomputeBBox fuel p2 True s2 of
                          Inl e \<Rightarrow> Inl e
                        | Inr s3 \<Rightarrow>
                            Inr (setChildren this []
                                  (setParent this None (setContent this None s3)))))))"

text \<open>
  \<open>addLeaf\<close>.  The comparator of \<open>containingNodes.sort\<close> is the difference of the areas;
  the sort is modelled as a stable insertion sort with that comparator.
\<close>

fun insertByArea :: "world \<Rightarrow> ref \<Rightarrow> ref list \<Rightarrow> ref list" where
  "insertByArea s a [] = [a]"
| "insertByArea s a (b # bs) =
     (if js_gt (js_sub (area (bbox (heap s a))) (area (bbox (heap s b)))) (Fin 0)
      then b # insertByArea s a bs else a # b # bs)"

definition sortByArea :: "world \<Rightarrow> ref list \<Rightarrow> ref list" where
  "sortByArea s xs = foldr (insertByArea s) xs []"

fun addLeaf :: "nat \<Rightarrow> ref \<Rightarrow> AbstractComponent \<Rightarrow> world \<Rightarrow> error + (ref \<times> world)" where
  "addLeaf 0 this leaf s0 = Inl OutOfFuel"
| "addLeaf (Suc fuel) this leaf s0 =
     (let s = onContentChange this s0
      in if content (heap s this) = None \<and> children (heap s this) = [] then
           (case recomputeBBox fuel this True (setContent this (Some leaf) s) of
              Inl e \<Rightarrow> Inl e
            | Inr s1 \<Rightarrow> Inr (this, s1))
         else
           (case (if content (heap s this) \<noteq> None then
                    (let (contentNode, s1) = newImageNode (Some this) s;
                         s2 = setContent contentNode (content (heap s1 this)) s1;
                         s3 = setContent this None s2;
                         s4 = setChildren this (children (heap s3 this) @ [contentNode]) s3
                     in recomputeBBox fuel contentNode False s4)
                  else Inr s) of
              Inl e \<Rightarrow> Inl e
            | Inr sa \<Rightarrow>
                (let leafBBox = getBBox leaf
                 in if containsRect leafBBox (bbox (heap sa this)) then
                      (let (nodeForNewLeaf, sb) = newImageNode (Some this) sa
                       in case (if length (children (heap sb this)) < targetChildCount then
                                  Inr (setChildren this
                                        (children (heap sb this) @ [nodeForNewLeaf]) sb)
                                else
                                  (let (nodeForChildren, sc) = newImageNode (Some this) sb;
                                       sd = setChildren nodeForChildren (children (heap sc this)) sc;
                                       se = setChildren this [nodeForNewLeaf, nodeForChildren] sd
                                   in case recomputeBBox fuel nodeForChildren True se of
                                        Inl e \<Rightarrow> Inl e
                                      | Inr sf \<Rightarrow> updateParents fuel nodeForChildren False sf)) of
                            Inl e \<Rightarrow> Inl e
                          | Inr sg \<Rightarrow> addLeaf fuel nodeForNewLeaf leaf sg)
                    else
                      (let containingNodes =
                             filter (\<lambda>child. containsRect (bbox (heap sa child)) leafBBox)
                               (children (heap sa this))
                       in if containingNodes \<noteq> [] \<and>
                             length (children (heap sa this)) \<ge> targetChildCount then
                            (case addLeaf fuel (hd (sortByArea sa containingNodes)) leaf sa of
                               Inl e \<Rightarrow> Inl e
                             | Inr (result, sh) \<Rightarrow>
                                 (case rebalance fuel result sh of
                                    Inl e \<Rightarrow> Inl e
                                  | Inr si \<Rightarrow> Inr (result, si)))
                          else
                            (let (newNode, sj) = newImageNode (Some this) sa;
                                 sk = setChildren this (children (heap sj this) @ [newNode]) sj;
                                 sl = setContent newNode (Some leaf) sk
                             in case recomputeBBox fuel newNode True sl of
                                  Inl e \<Rightarrow> Inl e
                                | Inr sm \<Rightarrow> Inr (newNode, sm))))))"

section \<open>The image\<close>

text \<open>
  \<open>sortLeavesByZIndex\<close>: the comparator reads \<open>getContent()!.getZIndex()\<close> of both nodes,
  which throws a \<open>TypeError\<close> on a node without content; a sort of two or more entries
  calls the comparator on every entry.  The sort itself is modelled as a stable sort.
\<close>

definition sortLeavesByZIndex :: "world \<Rightarrow> ref list \<Rightarrow> error + ref list" where
  "sortLeavesByZIndex s leaves =
     (if 2 \<le> length leaves \<and> list_ex (\<lambda>n. content (heap s n) = None) leaves then Inl TypeError
      else Inr (sort_key (\<lambda>n. case content (heap s n) of
                               Some c \<Rightarrow> getZIndex c | None \<Rightarrow> 0) leaves))"

text \<open>
  \<open>componentsById\<close> is a plain object, created by \<open>{}\<close> and used as a dictionary from ids to
  elements.  Its prototype is \<open>Object.prototype\<close>, so reading a key that is no own property
  falls through to the members every object inherits; \<open>__proto__\<close> is an accessor there:
  assigning an object to it replaces the prototype instead of creating an own property,
  and reading it gives the prototype.  An object of this kind is modelled by its own
  properties and by the element that an assignment to \<open>__proto__\<close> has made its prototype,
  if any.
\<close>

definition objectPrototypeKeys :: "string list" where
  "objectPrototypeKeys =
     [''constructor'', ''hasOwnProperty'', ''isPrototypeOf'', ''propertyIsEnumerable'',
      ''toLocaleString'', ''toString'', ''valueOf'', ''__defineGetter__'',
      ''__defineSetter__'', ''__lookupGetter__'', ''__lookupSetter__'', ''__proto__'']"

record jsObject =
  ownProps :: "string \<Rightarrow> AbstractComponent option"
  protoElem :: "AbstractComponent option"

definition emptyObject :: jsObject where
  "emptyObject = \<lparr>ownProps = (\<lambda>k. None), protoElem = None\<rparr>"

text \<open>
  What \<open>obj[k] ?? null\<close> evaluates to: an element stored under \<open>k\<close>; a member inherited
  from \<open>Object.prototype\<close> (a function or an object, not null and not an element of the
  image); the member \<open>k\<close> of an element that has become the prototype, whatever that is
  (the class of the elements is not part of the sources at hand); or null.
\<close>

datatype lookupResult =
    Found AbstractComponent
  | Inherited string
  | MemberOf AbstractComponent string
  | Null

definition getProp :: "jsObject \<Rightarrow> string \<Rightarrow> lookupResult" where
  "getProp obj k =
     (case ownProps obj k of
        Some e \<Rightarrow> Found e
      | None \<Rightarrow>
          (case protoElem obj of
             None \<Rightarrow> if k \<in> set objectPrototypeKeys then Inherited k else Null
           | Some p \<Rightarrow>
               if k = ''__proto__'' then Found p
               else if k \<in> set objectPrototypeKeys then Inherited k
               else MemberOf p k))"

definition setProp :: "jsObject \<Rightarrow> string \<Rightarrow> AbstractComponent \<Rightarrow> jsObject" where
  "setProp obj k v =
     (if k = ''__proto__'' then obj\<lparr>protoElem := Some v\<rparr>
      else obj\<lparr>ownProps := (ownProps obj)(k \<mapsto> v)\<rparr>)"

definition deleteProp :: "jsObject \<Rightarrow> string \<Rightarrow> jsObject" where
  "deleteProp obj k = obj\<lparr>ownProps := (ownProps obj)(k := None)\<rparr>"

record EditorImage =
  root_node :: ref
  componentsById :: jsObject

definition newEditorImage :: "world \<Rightarrow> EditorImage \<times> world" where
  "newEditorImage s =
     (let (r, s1) = newImageNode None s
      in (\<lparr>root_node = r, componentsById = emptyObject\<rparr>, s1))"

definition findParent ::
  "nat \<Rightarrow> EditorImage \<Rightarrow> AbstractComponent \<Rightarrow> world \<Rightarrow> error + ref option" where
  "findParent fuel img elem s =
     (case getLeavesIntersectingRegion fuel s (root_node img) (getBBox elem) None of
        Inl e \<Rightarrow> Inl e
      | Inr candidates \<Rightarrow> Inr (find (\<lambda>candidate. content (heap s candidate) = Some elem) candidates))"

text \<open>
  \<open>getElementsIntersectingRegion\<close>: the final \<open>map\<close> asserts every content non-null; a
  null there is reported as \<open>TypeError\<close>.
\<close>

fun contentsOf :: "world \<Rightarrow> ref list \<Rightarrow> error + AbstractComponent list" where
  "contentsOf s [] = Inr []"
| "contentsOf s (leaf # rest) =
     (case content (heap s leaf) of
        None \<Rightarrow> Inl TypeError
      | Some c \<Rightarrow> (case contentsOf s rest of Inl e \<Rightarrow> Inl e | Inr cs \<Rightarrow> Inr (c # cs)))"

definition getElementsIntersectingRegion ::
  "nat \<Rightarrow> EditorImage \<Rightarrow> Rect2 \<Rightarrow> world \<Rightarrow> error + AbstractComponent list" where
  "getElementsIntersectingRegion fuel img region s =
     (case getLeavesIntersectingRegion fuel s (root_node img) region None of
        Inl e \<Rightarrow> Inl e
      | Inr leaves \<Rightarrow>
          (case sortLeavesByZIndex s leaves of
             Inl e \<Rightarrow> Inl e
           | Inr sorted_leaves \<Rightarrow> contentsOf s sorted_leaves))"

definition onDestroyElement :: "EditorImage \<Rightarrow> AbstractComponent \<Rightarrow> EditorImage" where
  "onDestroyElement img elem =
     img\<lparr>componentsById := deleteProp (componentsById img) (getId elem)\<rparr>"

definition lookupElement :: "EditorImage \<Rightarrow> string \<Rightarrow> lookupResult" where
  "lookupElement img k = getProp (componentsById img) k"

definition addElementDirectly ::
  "nat \<Rightarrow> AbstractComponent \<Rightarrow> EditorImage \<times> world \<Rightarrow> error + (ref \<times> EditorImage \<times> world)" where
  "addElementDirectly fuel elem st =
     (let img = (fst st)\<lparr>componentsById := setProp (componentsById (fst st)) (getId elem) elem\<rparr>
      in case addLeaf fuel (root_node img) elem (snd st) of
           Inl e \<Rightarrow> Inl e
         | Inr (n, s1) \<Rightarrow> Inr (n, img, s1))"

text \<open>
  \<open>AddElementCommand\<close>: its constructor, \<open>apply\<close> and \<open>unapply\<close>.  The editor is the pair of
  its image and the object store; re-rendering is not modelled.
\<close>

record AddElementCommand =
  element :: AbstractComponent
  applyByFlattening :: bool

definition addElement :: "AbstractComponent \<Rightarrow> bool \<Rightarrow> error + AddElementCommand" where
  "addElement elem flatten =
     (if isNaN (area (getBBox elem)) then Inl NaNBBoxError
      else Inr \<lparr>element = elem, applyByFlattening = flatten\<rparr>)"

definition apply_cmd ::
  "nat \<Rightarrow> AddElementCommand \<Rightarrow> EditorImage \<times> world \<Rightarrow> error + (EditorImage \<times> world)" where
  "apply_cmd fuel cmd st =
     (case addElementDirectly fuel (element cmd) st of
        Inl e \<Rightarrow> Inl e
      | Inr (n, img, s1) \<Rightarrow> Inr (img, s1))"

definition unapply ::
  "nat \<Rightarrow> AddElementCommand \<Rightarrow> EditorImage \<times> world \<Rightarrow> error + (EditorImage \<times> world)" where
  "unapply fuel cmd st =
     (case findParent fuel (fst st) (element cmd) (snd st) of
        Inl e \<Rightarrow> Inl e
      | Inr None \<Rightarrow> Inr st
      | Inr (Some container) \<Rightarrow>
          (case remove fuel container (snd st) of
             Inl e \<Rightarrow> Inl e
           | Inr s1 \<Rightarrow> Inr (fst st, s1)))"

section \<open>Inserting, removing and the scenarios of the claims\<close>

text \<open>
  Insertion as the pen tool does it: \<open>EditorImage.addElement\<close> builds the command and
  \<open>editor.dispatch\<close> applies it.  Removal is \<open>unapply\<close> of that command.
\<close>

definition insertElement ::
  "nat \<Rightarrow> AbstractComponent \<Rightarrow> EditorImage \<times> world \<Rightarrow> error + (EditorImage \<times> world)" where
  "insertElement fuel elem st =
     (case addElement elem False of
        Inl e \<Rightarrow> Inl e
      | Inr cmd \<Rightarrow> apply_cmd fuel cmd st)"

definition removeElement ::
  "nat \<Rightarrow> AbstractComponent \<Rightarrow> EditorImage \<times> world \<Rightarrow> error + (EditorImage \<times> world)" where
  "removeElement fuel elem st = unapply fuel \<lparr>element = elem, applyByFlattening = False\<rparr> st"

definition andThen :: "error + 'a \<Rightarrow> ('a \<Rightarrow> error + 'b) \<Rightarrow> error + 'b" where
  "andThen r f = (case r of Inl e \<Rightarrow> Inl e | Inr v \<Rightarrow> f v)"

text \<open>The store at program start: nothing allocated, the static counter at 0.\<close>

definition initialWorld :: world where
  "initialWorld =
     \<lparr>heap = (\<lambda>r. \<lparr>content = None, bbox = Rect2_empty, children = [], parent = None,
                     id_node = 0\<rparr>),
      nextRef = 0, idCounter = 0\<rparr>"

definition mkRect :: "rat \<Rightarrow> rat \<Rightarrow> rat \<Rightarrow> rat \<Rightarrow> Rect2" where
  "mkRect a b c d = \<lparr>rect_x = Fin a, rect_y = Fin b, rect_w = Fin c, rect_h = Fin d\<rparr>"

definition mkElem :: "string \<Rightarrow> Rect2 \<Rightarrow> int \<Rightarrow> AbstractComponent" where
  "mkElem k b z = \<lparr>getId = k, getBBox = b, getZIndex = z\<rparr>"

text \<open>Observations of a state of the editor.\<close>

definition rootOf :: "EditorImage \<times> world \<Rightarrow> ImageNode" where
  "rootOf st = heap (snd st) (root_node (fst st))"

definition leafCount :: "nat \<Rightarrow> EditorImage \<times> world \<Rightarrow> error + nat" where
  "leafCount fuel st =
     (case getLeaves fuel (snd st) (root_node (fst st)) of
        Inl e \<Rightarrow> Inl e
      | Inr ls \<Rightarrow> Inr (length ls))"

section \<open>What a query visits\<close>

text \<open>
  The nodes the descent of \<open>getLeavesIntersectingRegion\<close> enters, starting at \<open>w\<close>: \<open>w\<close>
  itself unless the optional check finds it too small, and from an entered node every
  child whose cached bbox intersects the region, again unless too small.  An entered
  node is reported when it has content and \<open>bbox.intersection(region)\<close> is not null.
\<close>

definition tooSmall :: "world \<Rightarrow> (Rect2 \<Rightarrow> bool) option \<Rightarrow> ref \<Rightarrow> bool" where
  "tooSmall s isTooSmall n = (case isTooSmall of None \<Rightarrow> False | Some f \<Rightarrow> f (bbox (heap s n)))"

inductive entered :: "world \<Rightarrow> Rect2 \<Rightarrow> (Rect2 \<Rightarrow> bool) option \<Rightarrow> ref \<Rightarrow> ref \<Rightarrow> bool"
  for s :: world and region :: Rect2 and isTooSmall :: "(Rect2 \<Rightarrow> bool) option"
where
  entered_here: "\<not> tooSmall s isTooSmall w \<Longrightarrow> entered s region isTooSmall w w"
| entered_child:
    "\<not> tooSmall s isTooSmall w \<Longrightarrow> c \<in> set (children (heap s w)) \<Longrightarrow>
     intersects (bbox (heap s c)) region \<Longrightarrow> entered s region isTooSmall c m \<Longrightarrow>
     entered s region isTooSmall w m"

definition reported :: "world \<Rightarrow> Rect2 \<Rightarrow> ref \<Rightarrow> bool" where
  "reported s region n =
     (content (heap s n) \<noteq> None \<and> intersection (bbox (heap s n)) region \<noteq> None)"

text \<open>
  A path of child links from \<open>rt\<close> down to a node on which the cached bbox of every node
  below \<open>rt\<close> contains the rectangle \<open>b\<close>.
\<close>

inductive onPath :: "world \<Rightarrow> Rect2 \<Rightarrow> ref \<Rightarrow> ref \<Rightarrow> bool"
  for s :: world and b :: Rect2 and rt :: ref
where
  onPath_root: "onPath s b rt rt"
| onPath_child:
    "onPath s b rt p \<Longrightarrow> c \<in> set (children (heap s p)) \<Longrightarrow>
     containsRect (bbox (heap s c)) b \<Longrightarrow> onPath s b rt c"

text \<open>
  A store has no cycle of child links when its nodes can be ranked so that every child
  ranks below its parent.
\<close>

definition ranked :: "world \<Rightarrow> (ref \<Rightarrow> nat) \<Rightarrow> bool" where
  "ranked s r = (\<forall>p. \<forall>c\<in>set (children (heap s p)). r c < r p)"


section \<open>Elements and states of the scenarios\<close>

definition elemA :: AbstractComponent where
  "elemA = mkElem ''A'' (mkRect 1 1 2 2) 0"

definition elemU :: AbstractComponent where
  "elemU = mkElem ''U'' (mkRect 0 0 1 1) 0"

definition elemX :: AbstractComponent where
  "elemX = mkElem ''X'' (mkRect 5 5 1 1) 1"

text \<open>Bounding boxes with an infinite or NaN position, and one of negative height.\<close>

definition elemInf :: AbstractComponent where
  "elemInf = mkElem ''I'' \<lparr>rect_x = PInf, rect_y = Fin 0, rect_w = Fin 1, rect_h = Fin 1\<rparr> 0"

definition elemNaNPos :: AbstractComponent where
  "elemNaNPos = mkElem ''N'' \<lparr>rect_x = NaN, rect_y = Fin 0, rect_w = Fin 1, rect_h = Fin 1\<rparr> 0"

definition elemNeg :: AbstractComponent where
  "elemNeg = mkElem ''G'' (mkRect 0 0 1 (- 1)) 0"

text \<open>The image after inserting \<open>U\<close> and then \<open>X\<close> into the empty image.\<close>

definition twoElems :: "EditorImage \<times> world" where
  "twoElems = projr (andThen (insertElement 10 elemU (newEditorImage initialWorld))
                            (insertElement 10 elemX))"

text \<open>Two images in one program: both constructors run on the one store.\<close>

definition twoImages :: "EditorImage \<times> EditorImage \<times> world" where
  "twoImages =
     (let (img1, s1) = newEditorImage initialWorld;
          (img2, s2) = newEditorImage s1
      in (img1, img2, s2))"

section \<open>Unit squares in a row\<close>

text \<open>
  The scenario of unit squares at \<open>x = 0, 1, 2, \<dots>\<close> and \<open>y = 0\<close>, inserted in this order
  into the empty image.
\<close>

definition unitSquare :: "nat \<Rightarrow> AbstractComponent" where
  "unitSquare i = mkElem (replicate (Suc i) CHR ''u'') (mkRect (of_nat i) 0 1 1) (int i)"

fun insertUnitSquares :: "nat \<Rightarrow> nat \<Rightarrow> error + (EditorImage \<times> world)" where
  "insertUnitSquares fuel 0 = Inr (newEditorImage initialWorld)"
| "insertUnitSquares fuel (Suc n) =
     andThen (insertUnitSquares fuel n) (insertElement fuel (unitSquare n))"

text \<open>
  The state these insertions lead to, in closed form (proved below, for two or more
  insertions): the root is node 0 and the \<open>i\<close>-th square is in node \<open>i + 1\<close>.
\<close>

fun unitRegistry :: "nat \<Rightarrow> jsObject" where
  "unitRegistry 0 = emptyObject"
| "unitRegistry (Suc n) = setProp (unitRegistry n) (getId (unitSquare n)) (unitSquare n)"

definition flatImage :: "nat \<Rightarrow> EditorImage" where
  "flatImage n = \<lparr>root_node = 0, componentsById = unitRegistry n\<rparr>"

definition flatWorld :: "nat \<Rightarrow> world" where
  "flatWorld n =
     \<lparr>heap = (\<lambda>r. if r = 0 then
                     \<lparr>content = None, bbox = mkRect 0 0 (of_nat n) 1,
                      children = [Suc 0..<Suc n], parent = None,
                      id_node = (if n = 2 then 2 else 2 * n - 1)\<rparr>
                   else if r \<le> n then
                     \<lparr>content = Some (unitSquare (r - 1)), bbox = mkRect (of_nat (r - 1)) 0 1 1,
                      children = [], parent = Some 0,
                      id_node = (if r = 1 then 3 else 2 * r)\<rparr>
                   else \<lparr>content = None, bbox = Rect2_empty, children = [], parent = None,
                         id_node = 0\<rparr>),
      nextRef = Suc n, idCounter = 2 * n + 1\<rparr>"

text \<open>An element with the bbox of the first unit square.\<close>

definition elemB :: AbstractComponent where
  "elemB = mkElem ''B'' (mkRect 0 0 1 1) 100"

section \<open>Evaluation rules\<close>

lemmas model_defs = js_sub_def js_gt_def js_ge_def js_eq_def js_max_def js_min_def isNaN_def
  Rect2_empty_def max_x_def max_y_def area_def fromCorners_def intersects_def intersection_def
  union_rect_def containsRect_def Rect2_eq_def targetChildCount_def setContent_def setBBox_def
  setChildren_def setParent_def newImageNode_def onContentChange_def
  getChildrenIntersectingRegion_def getLeavesIntersectingRegion_def getLeaves_def
  updateParents_def rebalance_def remove_def sortByArea_def sortLeavesByZIndex_def
  newEditorImage_def findParent_def getElementsIntersectingRegion_def onDestroyElement_def
  lookupElement_def addElementDirectly_def addElement_def apply_cmd_def unapply_def
  insertElement_def removeElement_def andThen_def initialWorld_def mkRect_def mkElem_def
  rootOf_def leafCount_def emptyObject_def getProp_def setProp_def deleteProp_def
  objectPrototypeKeys_def

lemmas addLeaf_numeral = addLeaf.simps(2)[of "pred_numeral k", folded numeral_eq_Suc] for k

lemmas recomputeBBox_numeral =
  recomputeBBox.simps(2)[of "pred_numeral k", folded numeral_eq_Suc] for k

lemmas toNextLoop_numeral = toNextLoop.simps(3)[of "pred_numeral k", folded numeral_eq_Suc] for k

lemmas fuel_simps = addLeaf_numeral recomputeBBox_numeral toNextLoop_numeral

lemmas evs = model_defs fuel_simps Let_def twoElems_def twoImages_def elemA_def elemU_def
  elemX_def elemInf_def elemNaNPos_def elemNeg_def elemB_def

lemmas evc = let_weak_cong prod.case_cong_weak



lemma twoElems_query_all:
  "getElementsIntersectingRegion 10 (fst twoElems) (mkRect 0 0 10 10) (snd twoElems) =
     Inr [elemU, elemX]"
  by (simp add: evs cong: evc)

lemma twoElems_leaves:
  "getLeavesIntersectingRegion 10 (snd twoElems) 0 (mkRect 0 0 10 10) None = Inr [2, 1]"
  by (simp add: evs cong: evc)


section \<open>The work-list loop of a query\<close>

lemma toNextLoop_empty: "toNextLoop fuel s region isTooSmall [] result = Inr result"
  by (cases fuel) simp_all

lemma toNextLoop_snoc:
  "toNextLoop (Suc fuel) s region isTooSmall (wl @ [n]) result =
     (if \<not> tooSmall s isTooSmall n then
        toNextLoop fuel s region isTooSmall (wl @ getChildrenIntersectingRegion s n region)
          (if reported s region n then result @ [n] else result)
      else toNextLoop fuel s region isTooSmall wl result)"
proof -
  obtain v va where e: "wl @ [n] = v # va" by (cases "wl @ [n]") auto
  have b: "butlast (v # va) = wl" and l: "last (v # va) = n"
    using e [symmetric] by (simp_all only: butlast_snoc last_snoc)
  show ?thesis
    unfolding e toNextLoop.simps(3) Let_def b l tooSmall_def reported_def ..
qed

lemma toNextLoop_snoc_0: "toNextLoop 0 s region isTooSmall (wl @ [n]) result = Inl OutOfFuel"
  by (cases "wl @ [n]") auto

lemma toNextLoop_content:
  "toNextLoop fuel s region isTooSmall workList result = Inr out \<Longrightarrow>
   \<forall>n\<in>set result. content (heap s n) \<noteq> None \<Longrightarrow>
   \<forall>n\<in>set out. content (heap s n) \<noteq> None"
proof (induction fuel arbitrary: workList result)
  case 0
  then show ?case
    by (cases workList rule: rev_cases) (simp_all add: toNextLoop_empty toNextLoop_snoc_0)
next
  case (Suc fuel)
  show ?case
  proof (cases workList rule: rev_cases)
    case Nil
    with Suc.prems show ?thesis by (simp add: toNextLoop_empty)
  next
    case (snoc wl n)
    show ?thesis
    proof (cases "tooSmall s isTooSmall n")
      case True
      with Suc.prems snoc have "toNextLoop fuel s region isTooSmall wl result = Inr out"
        by (simp add: toNextLoop_snoc)
      then show ?thesis using Suc.prems(2) by (rule Suc.IH)
    next
      case False
      let ?r = "if reported s region n then result @ [n] else result"
      from False Suc.prems snoc have
        "toNextLoop fuel s region isTooSmall (wl @ getChildrenIntersectingRegion s n region) ?r = Inr out"
        by (simp add: toNextLoop_snoc)
      moreover have "\<forall>m\<in>set ?r. content (heap s m) \<noteq> None"
        using Suc.prems(2) by (simp add: reported_def)
      ultimately show ?thesis by (rule Suc.IH)
    qed
  qed
qed









lemma getLeavesOf_content:
  "getLeavesOf fuel s cs result = Inr out \<Longrightarrow>
   \<forall>n\<in>set result. content (heap s n) \<noteq> None \<Longrightarrow>
   \<forall>n\<in>set out. content (heap s n) \<noteq> None"
proof (induction fuel s cs result arbitrary: out rule: getLeavesOf.induct)
  case (1 fuel s result)
  then show ?case by simp
next
  case (2 fuel s child rest result)
  let ?sub = "if content (heap s child) \<noteq> None then Inr [child]
              else (case fuel of 0 \<Rightarrow> Inl OutOfFuel
                    | Suc f \<Rightarrow> getLeavesOf f s (children (heap s child)) [])"
  from "2.prems"(1) obtain ls where
    sub: "?sub = Inr ls" and rest: "getLeavesOf fuel s rest (result @ ls) = Inr out"
    by (cases ?sub) simp_all
  have "\<forall>n\<in>set ls. content (heap s n) \<noteq> None"
  proof (cases "content (heap s child) \<noteq> None")
    case True
    with sub show ?thesis by auto
  next
    case False
    with sub obtain f where f: "fuel = Suc f"
      and g: "getLeavesOf f s (children (heap s child)) [] = Inr ls"
      by (cases fuel) simp_all
    show ?thesis
      by (rule "2.IH"(1) [OF False f g]) simp
  qed
  with "2.prems"(2) have "\<forall>n\<in>set (result @ ls). content (heap s n) \<noteq> None"
    by auto
  with "2.IH"(2) [OF sub rest] show ?case .
qed

lemma sortLeavesByZIndex_ok:
  "\<forall>n\<in>set ls. content (heap s n) \<noteq> None \<Longrightarrow>
   sortLeavesByZIndex s ls =
     Inr (sort_key (\<lambda>n. case content (heap s n) of Some c \<Rightarrow> getZIndex c | None \<Rightarrow> 0) ls)"
  by (auto simp: sortLeavesByZIndex_def list_ex_iff)

lemma contentsOf_ok:
  "\<forall>n\<in>set ls. content (heap s n) \<noteq> None \<Longrightarrow> \<exists>cs. contentsOf s ls = Inr cs"
  by (induction ls) auto

lemma contentsOf_zindex:
  "contentsOf s ls = Inr cs \<Longrightarrow>
   map getZIndex cs = map (\<lambda>n. case content (heap s n) of Some c \<Rightarrow> getZIndex c | None \<Rightarrow> 0) ls"
  by (induction ls arbitrary: cs) (auto split: option.splits sum.splits)



text \<open>
  With enough fuel the loop returns on every store without a cycle of child links, and
  more fuel does not change what it returns.
\<close>

lemma toNextLoop_more_fuel:
  "toNextLoop fuel s region isTooSmall workList result = Inr out \<Longrightarrow>
   toNextLoop (fuel + k) s region isTooSmall workList result = Inr out"
proof (induction fuel arbitrary: workList result)
  case 0
  then show ?case
    by (cases workList rule: rev_cases) (simp_all add: toNextLoop_empty toNextLoop_snoc_0)
next
  case (Suc fuel)
  show ?case
  proof (cases workList rule: rev_cases)
    case Nil
    with Suc.prems show ?thesis by (simp add: toNextLoop_empty)
  next
    case (snoc wl n)
    with Suc.prems Suc.IH show ?thesis
      by (simp add: toNextLoop_snoc del: toNextLoop.simps split: if_splits)
  qed
qed

lemma toNextLoop_returns:
  assumes "ranked s r"
  shows "\<exists>fuel out. toNextLoop fuel s region isTooSmall workList result = Inr out"
proof (induction "mset (map r workList)" arbitrary: workList result rule: less_induct)
  case less
  show ?case
  proof (cases workList rule: rev_cases)
    case Nil
    then show ?thesis by (simp add: toNextLoop_empty)
  next
    case (snoc wl n)
    let ?cs = "getChildrenIntersectingRegion s n region"
    let ?rs = "if reported s region n then result @ [n] else result"
    have 1: "mset (map r wl) < mset (map r workList)"
      unfolding snoc by simp
    have "\<forall>c\<in>set ?cs. r c < r n"
      using assms by (auto simp: ranked_def getChildrenIntersectingRegion_def)
    then have "mset (map r ?cs) < {#r n#}"
      by (intro ex_gt_imp_less_multiset) auto
    then have 2: "mset (map r (wl @ ?cs)) < mset (map r workList)"
      unfolding snoc by simp
    from less [OF 1] obtain f1 o1 where
      a: "toNextLoop f1 s region isTooSmall wl result = Inr o1" by blast
    from less [OF 2] obtain f2 o2 where
      b: "toNextLoop f2 s region isTooSmall (wl @ ?cs) ?rs = Inr o2" by blast
    show ?thesis
    proof (cases "tooSmall s isTooSmall n")
      case True
      with a have "toNextLoop (Suc f1) s region isTooSmall workList result = Inr o1"
        unfolding snoc by (simp add: toNextLoop_snoc del: toNextLoop.simps)
      then show ?thesis by blast
    next
      case False
      with b have "toNextLoop (Suc f2) s region isTooSmall workList result = Inr o2"
        unfolding snoc by (simp add: toNextLoop_snoc del: toNextLoop.simps)
      then show ?thesis by blast
    qed
  qed
qed

lemma query_returns:
  assumes "ranked s r"
  shows "\<exists>fuel es. \<forall>k. getElementsIntersectingRegion (fuel + k) img region s = Inr es"
proof -
  let ?key = "\<lambda>n. case content (heap s n) of Some c \<Rightarrow> getZIndex c | None \<Rightarrow> 0"
  from toNextLoop_returns [OF assms] obtain fuel ls where
    l: "toNextLoop fuel s region None [root_node img] [] = Inr ls" by blast
  then have c: "\<forall>n\<in>set ls. content (heap s n) \<noteq> None"
    by (rule toNextLoop_content) simp
  then have "\<forall>n\<in>set (sort_key ?key ls). content (heap s n) \<noteq> None" by simp
  then obtain es where e: "contentsOf s (sort_key ?key ls) = Inr es"
    using contentsOf_ok by blast
  have "getElementsIntersectingRegion (fuel + k) img region s = Inr es" for k
    using toNextLoop_more_fuel [OF l, of k] sortLeavesByZIndex_ok [OF c] e
    by (simp add: getElementsIntersectingRegion_def getLeavesIntersectingRegion_def)
  then show ?thesis by blast
qed

lemma twoElems_ranked: "ranked (snd twoElems) (\<lambda>n. if n = 0 then 1 else 0)"
  unfolding ranked_def
  by (simp add: evs cong: evc)

section \<open>Which elements a query returns\<close>




section \<open>The order of the result of a query\<close>

text \<open>
  Claim C2: for every region and every state of the index, the sequence a query returns
  is sorted in ascending order of z-index.  The result is a function of the state and the
  region, so it is the same whenever the call is repeated on them; and on a store
  without a cycle of child links the query does return, whatever fuel beyond some bound
  it is given.
\<close>

theorem query_sorted_by_zindex:
  "(getElementsIntersectingRegion fuel img region s = Inr es \<longrightarrow> sorted (map getZIndex es)) \<and>
   (ranked s r \<longrightarrow>
      (\<exists>fuel' es'. \<forall>k. getElementsIntersectingRegion (fuel' + k) img region s = Inr es' \<and>
          sorted (map getZIndex es')))"
proof -
  have a: "sorted (map getZIndex es)"
    if a: "getElementsIntersectingRegion fuel img region s = Inr es" for fuel es
  proof -
    let ?k = "\<lambda>n. case content (heap s n) of Some c \<Rightarrow> getZIndex c | None \<Rightarrow> 0"
    from a obtain ls sl where
      l: "getLeavesIntersectingRegion fuel s (root_node img) region None = Inr ls" and
      so: "sortLeavesByZIndex s ls = Inr sl" and
      co: "contentsOf s sl = Inr es"
      by (auto simp: getElementsIntersectingRegion_def split: sum.splits)
    from so have "sl = sort_key ?k ls"
      by (auto simp: sortLeavesByZIndex_def split: if_splits)
    with contentsOf_zindex [OF co] have "map getZIndex es = map ?k (sort_key ?k ls)" by simp
    then show ?thesis by (simp add: sorted_sort_key)
  qed
  have "\<exists>fuel' es'. \<forall>k. getElementsIntersectingRegion (fuel' + k) img region s = Inr es' \<and>
          sorted (map getZIndex es')" if "ranked s r"
  proof -
    from query_returns [OF that] obtain fuel' es' where
      q: "\<forall>k. getElementsIntersectingRegion (fuel' + k) img region s = Inr es'" by blast
    then have "getElementsIntersectingRegion (fuel' + 0) img region s = Inr es'" by blast
    then have "sorted (map getZIndex es')" by (rule a)
    with q show ?thesis by blast
  qed
  with a show ?thesis by blast
qed

text \<open>
  Claim C2 on the image \<open>twoElems\<close>: the descent reports \<open>X\<close> (z-index 1) before \<open>U\<close>
  (z-index 0); the query returns \<open>U\<close> first.
\<close>

theorem query_sorted_by_zindex_witness:
  "getElementsIntersectingRegion 10 (fst twoElems) (mkRect 0 0 10 10) (snd twoElems) =
     Inr [elemU, elemX] \<and>
   sorted (map getZIndex [elemU, elemX]) \<and>
   ranked (snd twoElems) (\<lambda>n. if n = 0 then 1 else 0) \<and>
   (\<exists>fuel' es'. \<forall>k. getElementsIntersectingRegion (fuel' + k) (fst twoElems)
        (mkRect 0 0 10 10) (snd twoElems) = Inr es' \<and> sorted (map getZIndex es'))"
  using query_sorted_by_zindex [of 10 "fst twoElems" "mkRect 0 0 10 10" "snd twoElems" "[elemU, elemX]"
      "\<lambda>n. if n = 0 then 1 else 0"]
    twoElems_query_all twoElems_ranked
  by blast

section \<open>The bounding box of the root after a removal\<close>

text \<open>
  Claim C3: after every public operation every internal node's cached bbox is the union
  of its children's bboxes, the empty rectangle when it has no children.  The code does
  not keep this: \<open>remove\<close> on the root returns early without recomputing the bbox.
  Inserting the element \<open>A\<close> with bbox \<open>(1, 1, 2, 2)\<close> into the empty image and removing
  it leaves a root with no content and no children whose bbox is still \<open>(1, 1, 2, 2)\<close>.
\<close>

theorem root_bbox_stale_after_remove:
  "(case andThen (insertElement 10 elemA (newEditorImage initialWorld)) (removeElement 10 elemA) of
      Inl e \<Rightarrow> False
    | Inr st \<Rightarrow> content (rootOf st) = None \<and> children (rootOf st) = [] \<and>
                bbox (rootOf st) = mkRect 1 1 2 2 \<and> bbox (rootOf st) \<noteq> Rect2_empty)"
  by (simp add: evs cong: evc)

text \<open>
  Claim C8: inserting an element and removing it at once restores the leaf count and the
  bbox of the root.  On the empty image the leaf count is restored (0 before and after),
  the bbox of the root is not: it was the empty rectangle and is \<open>(1, 1, 2, 2)\<close> afterwards.
\<close>

theorem insert_remove_changes_root_bbox:
  "leafCount 10 (newEditorImage initialWorld) = Inr 0 \<and>
   bbox (rootOf (newEditorImage initialWorld)) = Rect2_empty \<and>
   (case andThen (insertElement 10 elemA (newEditorImage initialWorld)) (removeElement 10 elemA) of
      Inl e \<Rightarrow> False
    | Inr st \<Rightarrow> leafCount 10 st = Inr 0 \<and> bbox (rootOf st) = mkRect 1 1 2 2)"
  by (simp add: evs cong: evc)

section \<open>Inserting unit squares in a row\<close>

lemma union_units:
  "union_rect (mkRect 0 0 (of_nat j) 1) (mkRect (of_nat j) 0 1 1) = mkRect 0 0 (of_nat (Suc j)) 1"
  by (simp add: union_rect_def mkRect_def fromCorners_def max_x_def max_y_def js_min_def js_max_def
      js_sub_def)

lemma childrenBBox_units_aux:
  assumes "\<And>i. j0 \<le> i \<Longrightarrow> i < m \<Longrightarrow> bbox (heap s (Suc i)) = mkRect (of_nat i) 0 1 1"
  shows "j0 \<le> j \<Longrightarrow> j \<le> m \<Longrightarrow>
     childrenBBox s 0 [Suc j..<Suc m] False (mkRect 0 0 (of_nat j) 1) = mkRect 0 0 (of_nat m) 1"
proof (induction "m - j" arbitrary: j)
  case 0
  then show ?case by simp
next
  case (Suc d)
  then have jm: "j < m" by simp
  then have l: "[Suc j..<Suc m] = Suc j # [Suc (Suc j)..<Suc m]"
    by (simp add: upt_conv_Cons)
  have b: "bbox (heap s (Suc j)) = mkRect (of_nat j) 0 1 1"
    using assms [of j] jm Suc.prems by simp
  have "childrenBBox s 0 [Suc (Suc j)..<Suc m] False (mkRect 0 0 (of_nat (Suc j)) 1) =
        mkRect 0 0 (of_nat m) 1"
    using Suc.hyps(1) [of "Suc j"] Suc.hyps(2) jm Suc.prems by simp
  then show ?case
    unfolding l by (simp add: b union_units Let_def)
qed

lemma childrenBBox_units:
  assumes "\<And>i. i < m \<Longrightarrow> bbox (heap s (Suc i)) = mkRect (of_nat i) 0 1 1"
    and "0 < m"
  shows "childrenBBox s 0 [Suc 0..<Suc m] True Rect2_empty = mkRect 0 0 (of_nat m) 1"
proof -
  have l: "[Suc 0..<Suc m] = Suc 0 # [Suc (Suc 0)..<Suc m]"
    using assms(2) by (simp add: upt_conv_Cons)
  have b: "bbox (heap s (Suc 0)) = mkRect 0 0 1 1"
    using assms(1) [of 0] assms(2) by simp
  have "childrenBBox s 0 [Suc (Suc 0)..<Suc m] False (mkRect 0 0 (of_nat (Suc 0)) 1) =
        mkRect 0 0 (of_nat m) 1"
    using assms by (intro childrenBBox_units_aux [of 0]) auto
  then show ?thesis
    unfolding l by (simp add: b Let_def)
qed

lemma unitSquare_bbox: "getBBox (unitSquare i) = mkRect (of_nat i) 0 1 1"
  by (simp add: unitSquare_def mkElem_def)

lemma flatWorld_root:
  "heap (flatWorld n) 0 =
     \<lparr>content = None, bbox = mkRect 0 0 (of_nat n) 1, children = [Suc 0..<Suc n],
      parent = None, id_node = (if n = 2 then 2 else 2 * n - 1)\<rparr>"
  by (simp add: flatWorld_def)

lemma flatWorld_leaf:
  "i < n \<Longrightarrow> heap (flatWorld n) (Suc i) =
     \<lparr>content = Some (unitSquare i), bbox = mkRect (of_nat i) 0 1 1, children = [],
      parent = Some 0, id_node = (if i = 0 then 3 else 2 * Suc i)\<rparr>"
  by (simp add: flatWorld_def)

lemma not_contains_unit:
  "0 < n \<Longrightarrow> \<not> containsRect (mkRect (of_nat n) 0 1 1) (mkRect 0 0 (of_nat n) 1)"
  by (simp add: containsRect_def mkRect_def js_ge_def max_x_def max_y_def)

lemma unit_not_contains:
  "i < n \<Longrightarrow> \<not> containsRect (mkRect (of_nat i) 0 1 1) (mkRect (of_nat n) 0 1 1)"
  by (simp add: containsRect_def mkRect_def js_ge_def max_x_def max_y_def)

lemma unit_not_empty: "\<not> Rect2_eq Rect2_empty (mkRect a 0 1 1)"
  by (simp add: Rect2_eq_def Rect2_empty_def mkRect_def js_eq_def)

lemma strip_grows: "\<not> Rect2_eq (mkRect 0 0 (of_nat n) 1) (mkRect 0 0 (of_nat (Suc n)) 1)"
  by (simp add: Rect2_eq_def mkRect_def js_eq_def)

text \<open>One more unit square: the new leaf is appended to the children of the root.\<close>

lemma flat_step:
  assumes n: "2 \<le> n"
  shows "addLeaf (Suc (Suc (Suc f))) 0 (unitSquare n) (flatWorld n) =
           Inr (Suc n, flatWorld (Suc n))"
proof -
  define leaf where "leaf = unitSquare n"
  define s where "s = onContentChange 0 (flatWorld n)"
  have lb: "getBBox leaf = mkRect (of_nat n) 0 1 1"
    by (simp add: leaf_def unitSquare_bbox)
  have s0: "heap s 0 =
     \<lparr>content = None, bbox = mkRect 0 0 (of_nat n) 1, children = [Suc 0..<Suc n],
      parent = None, id_node = 2 * n + 1\<rparr>"
    by (simp add: s_def onContentChange_def flatWorld_def)
  have sr: "heap s (Suc i) = heap (flatWorld n) (Suc i)" for i
    by (simp add: s_def onContentChange_def)
  have sn: "nextRef s = Suc n" "idCounter s = 2 * n + 2"
    by (simp_all add: s_def onContentChange_def flatWorld_def)
  have c1: "(content (heap s 0) = None \<and> children (heap s 0) = []) = False"
    using n by (simp add: s0)
  have c2: "(content (heap s 0) \<noteq> None) = False"
    by (simp add: s0)
  have c3: "containsRect (getBBox leaf) (bbox (heap s 0)) = False"
    using n not_contains_unit [of n] by (simp add: s0 lb)
  have c4: "filter (\<lambda>child. containsRect (bbox (heap s child)) (getBBox leaf))
              (children (heap s 0)) = []"
  proof -
    have "\<not> containsRect (bbox (heap s c)) (getBBox leaf)" if "c \<in> set [Suc 0..<Suc n]" for c
    proof -
      from that have "Suc 0 \<le> c" and "c < Suc n"
        by (simp_all only: set_upt atLeastLessThan_iff)
      then obtain i where c: "c = Suc i" and i: "i < n"
        by (cases c) simp_all
      show ?thesis
        unfolding c sr lb using i by (simp add: flatWorld_leaf unit_not_contains)
    qed
    then show ?thesis by (simp add: s0)
  qed
  define sj where "sj = snd (newImageNode (Some 0) s)"
  have nj: "newImageNode (Some 0) s = (Suc n, sj)"
    by (simp add: sj_def newImageNode_def sn)
  define sl where
    "sl = setContent (Suc n) (Some leaf) (setChildren 0 (children (heap sj 0) @ [Suc n]) sj)"
  define s1 where "s1 = setBBox (Suc n) (mkRect (of_nat n) 0 1 1) sl"
  have l1: "heap sl (Suc n) =
      \<lparr>content = Some leaf, bbox = Rect2_empty, children = [], parent = Some 0,
       id_node = 2 * n + 2\<rparr>"
    by (simp add: sl_def sj_def newImageNode_def setContent_def setChildren_def sn)
  have s1n: "heap s1 (Suc n) =
      \<lparr>content = Some leaf, bbox = mkRect (of_nat n) 0 1 1, children = [], parent = Some 0,
       id_node = 2 * n + 2\<rparr>"
    by (simp add: s1_def setBBox_def l1 lb)
  have s10: "heap s1 0 =
     \<lparr>content = None, bbox = mkRect 0 0 (of_nat n) 1, children = [Suc 0..<Suc (Suc n)],
      parent = None, id_node = 2 * n + 1\<rparr>"
    by (simp add: s1_def sl_def sj_def newImageNode_def setContent_def setChildren_def
        setBBox_def sn s0 upt_Suc_append del: upt_Suc)
  have s1r: "heap s1 (Suc i) = heap (flatWorld n) (Suc i)" if "i < n" for i
    using that
    by (simp add: s1_def sl_def sj_def newImageNode_def setContent_def setChildren_def
        setBBox_def sn sr)
  have cb: "childrenBBox s1 0 [Suc 0..<Suc (Suc n)] True Rect2_empty =
            mkRect 0 0 (of_nat (Suc n)) 1"
  proof (rule childrenBBox_units)
    fix i assume "i < Suc n"
    then consider "i < n" | "i = n" by linarith
    then show "bbox (heap s1 (Suc i)) = mkRect (of_nat i) 0 1 1"
      by cases (simp_all add: s1r flatWorld_leaf s1n)
  qed simp
  define s2 where "s2 = setBBox 0 (mkRect 0 0 (of_nat (Suc n)) 1) s1"
  have r2: "recomputeBBox (Suc f) 0 True s1 = Inr s2"
    using strip_grows [of n]
    by (simp add: Let_def s10 cb s2_def setBBox_def del: upt_Suc)
  have r1: "recomputeBBox (Suc (Suc f)) (Suc n) True sl = Inr s2"
    using unit_not_empty [of "of_nat n"] r2
    by (subst recomputeBBox.simps(2))
       (simp add: Let_def l1 lb s1_def [symmetric] s1n del: recomputeBBox.simps upt_Suc)
  have fin: "s2 = flatWorld (Suc n)"
    using n
    by (auto simp add: s2_def s1_def sl_def sj_def s_def newImageNode_def onContentChange_def
        setContent_def setChildren_def setBBox_def flatWorld_def fun_eq_iff leaf_def
        upt_Suc_append simp del: upt_Suc)
  have h: "content (heap s 0) = None" "children (heap s 0) = [Suc 0..<Suc n]"
    "bbox (heap s 0) = mkRect 0 0 (of_nat n) 1"
    by (simp_all add: s0)
  have ne: "[Suc 0..<Suc n] \<noteq> []"
    using n by simp
  have c3': "containsRect (mkRect (of_nat n) 0 1 1) (mkRect 0 0 (of_nat n) 1) = False"
    using c3 by (simp add: lb h)
  have c4': "filter (\<lambda>child. containsRect (bbox (heap s child)) (mkRect (of_nat n) 0 1 1))
              [Suc 0..<Suc n] = []"
    using c4 by (simp only: lb h)
  show ?thesis
    using n
    apply (subst addLeaf.simps(2))
    apply (simp add: Let_def s_def [symmetric] leaf_def [symmetric] h ne lb c3' c4' nj
        sl_def [symmetric] r1 fin
        del: addLeaf.simps recomputeBBox.simps upt_Suc)
    done
qed

lemma le2_cases: "x \<le> Suc (Suc 0) \<Longrightarrow> x = 0 \<or> x = Suc 0 \<or> x = Suc (Suc 0)"
  by arith

lemma flat_base:
  "insertUnitSquares (Suc (Suc (Suc f))) (Suc (Suc 0)) = Inr (flatImage 2, flatWorld 2)"
  apply (simp add: model_defs Let_def unitSquare_def flatImage_def numeral_2_eq_2
      cong: let_weak_cong prod.case_cong_weak)
  apply (auto simp add: flatWorld_def fun_eq_iff unitSquare_def model_defs numeral_2_eq_2
      dest!: le2_cases)
  done

lemma insert_flat:
  assumes "2 \<le> n"
  shows "insertElement (Suc (Suc (Suc f))) (unitSquare n) (flatImage n, flatWorld n) =
           Inr (flatImage (Suc n), flatWorld (Suc n))"
proof -
  have a: "addElement (unitSquare n) False =
             Inr \<lparr>element = unitSquare n, applyByFlattening = False\<rparr>"
    by (simp add: addElement_def unitSquare_bbox mkRect_def area_def isNaN_def)
  show ?thesis
    unfolding insertElement_def a apply_cmd_def addElementDirectly_def
    by (simp add: flatImage_def flat_step [OF assms] del: addLeaf.simps)
qed

lemma insertUnitSquares_flat:
  "2 \<le> n \<Longrightarrow>
   insertUnitSquares (Suc (Suc (Suc f))) n = Inr (flatImage n, flatWorld n)"
proof (induction n)
  case 0
  then show ?case by simp
next
  case (Suc n)
  show ?case
  proof (cases "n = Suc 0")
    case True
    then show ?thesis using flat_base [of f] by (simp add: numeral_2_eq_2)
  next
    case False
    with Suc.prems have n: "2 \<le> n" by simp
    show ?thesis
      using Suc.IH [OF n] insert_flat [OF n, of f]
      by (simp add: andThen_def del: upt_Suc)
  qed
qed

lemma fuel10: "(10::nat) = Suc (Suc (Suc 7))"
  by simp

lemma flatWorld_no_internal_child:
  "c \<in> set [Suc 0..<Suc n] \<Longrightarrow>
   content (heap (flatWorld n) c) \<noteq> None \<and> children (heap (flatWorld n) c) = []"
  by (auto simp add: flatWorld_def simp del: upt_Suc)

text \<open>
  Claim C5, as stated: after the 31st of these insertions the root has split and holds at
  least two internal nodes.  It has not: after 31 insertions, and after all 40, every
  child of the root is a leaf, so the root holds 31 (then 40) leaves and no internal node.
\<close>

theorem no_split_after_31_unit_squares:
  "(case insertUnitSquares 10 31 of
      Inl e \<Rightarrow> False
    | Inr st \<Rightarrow> length (children (rootOf st)) = 31 \<and>
                filter (\<lambda>c. content (heap (snd st) c) = None) (children (rootOf st)) = []) \<and>
   (case insertUnitSquares 10 40 of
      Inl e \<Rightarrow> False
    | Inr st \<Rightarrow> length (children (rootOf st)) = 40 \<and>
                filter (\<lambda>c. content (heap (snd st) c) = None) (children (rootOf st)) = [])"
proof -
  have "insertUnitSquares 10 n = Inr (flatImage n, flatWorld n) \<and>
        length (children (rootOf (flatImage n, flatWorld n))) = n \<and>
        filter (\<lambda>c. content (heap (snd (flatImage n, flatWorld n)) c) = None)
          (children (rootOf (flatImage n, flatWorld n))) = []" if "2 \<le> n" for n
  proof -
    have e: "insertUnitSquares 10 n = Inr (flatImage n, flatWorld n)"
      unfolding fuel10 using that by (rule insertUnitSquares_flat)
    have r: "rootOf (flatImage n, flatWorld n) = heap (flatWorld n) 0"
      by (simp add: rootOf_def flatImage_def)
    show ?thesis
      using flatWorld_no_internal_child [of _ n]
      by (simp add: e r flatWorld_root del: upt_Suc)
  qed
  from this [of 31] this [of 40] show ?thesis by simp
qed

text \<open>
  Claim C5, amended: inserting unit squares at \<open>x = 0, 1, 2, \<dots>\<close> (\<open>y = 0\<close>) in order into
  the empty index never splits the root: after \<open>n \<ge> 2\<close> insertions the root is an internal
  node with exactly \<open>n\<close> children, each of them a leaf.  No new square contains the bbox
  of the root or lies within the bbox of a child, which are the only cases in which
  \<open>addLeaf\<close> does anything but append.
\<close>

theorem unit_squares_stay_flat:
  assumes "2 \<le> n"
  shows "\<exists>img s. insertUnitSquares (Suc (Suc (Suc f))) n = Inr (img, s) \<and>
           content (heap s (root_node img)) = None \<and>
           children (heap s (root_node img)) = [Suc 0..<Suc n] \<and>
           length (children (heap s (root_node img))) = n \<and>
           (\<forall>c\<in>set (children (heap s (root_node img))).
              content (heap s c) \<noteq> None \<and> children (heap s c) = [])"
proof -
  have r: "root_node (flatImage n) = 0"
    by (simp add: flatImage_def)
  show ?thesis
    unfolding insertUnitSquares_flat [OF assms]
    using flatWorld_no_internal_child [of _ n]
    by (simp add: r flatWorld_root del: upt_Suc)
qed

text \<open>Claim C5, amended, after 31 insertions.\<close>

theorem unit_squares_stay_flat_witness:
  "(2::nat) \<le> 31 \<and>
   (\<exists>img s. insertUnitSquares 10 31 = Inr (img, s) \<and>
      content (heap s (root_node img)) = None \<and>
      length (children (heap s (root_node img))) = 31 \<and>
      content (heap s 1) \<noteq> None \<and> children (heap s 1) = [] \<and>
      content (heap s 31) \<noteq> None \<and> children (heap s 31) = [])"
proof -
  have h: "(2::nat) \<le> 31" by simp
  from unit_squares_stay_flat [OF h, of 7] obtain img s where
    i: "insertUnitSquares 10 31 = Inr (img, s)" and
    c: "content (heap s (root_node img)) = None" and
    k: "children (heap s (root_node img)) = [Suc 0..<Suc 31]" and
    l: "length (children (heap s (root_node img))) = 31" and
    a: "\<forall>c\<in>set (children (heap s (root_node img))).
          content (heap s c) \<noteq> None \<and> children (heap s c) = []"
    unfolding fuel10 [symmetric] by blast
  have "(1::nat) \<in> set [Suc 0..<Suc 31]" and "(31::nat) \<in> set [Suc 0..<Suc 31]"
    by simp_all
  with a k have "content (heap s 1) \<noteq> None \<and> children (heap s 1) = [] \<and>
      content (heap s 31) \<noteq> None \<and> children (heap s 31) = []"
    by metis
  with h i c l show ?thesis by blast
qed

section \<open>Parents and children after a removal\<close>

lemma detached_parent_on_flat_30:
  "(case andThen (insertElement 10 elemB (flatImage 30, flatWorld 30)) (removeElement 10 elemB) of
      Inl e \<Rightarrow> False
    | Inr st \<Rightarrow> root_node (fst st) = 0 \<and> 1 \<in> set (children (heap (snd st) 0)) \<and>
                parent (heap (snd st) 1) = None \<and> content (heap (snd st) 1) = None \<and>
                children (heap (snd st) 1) = [] \<and> length (children (heap (snd st) 0)) = 31)"
  by (simp add: model_defs fuel_simps Let_def flatWorld_def flatImage_def elemB_def unitSquare_def
      upt_conv_Cons del: upt_Suc cong: let_weak_cong prod.case_cong_weak)

text \<open>
  Claim C4: after every public operation, \<open>c.parent == p\<close> exactly when \<open>c\<close> is among the
  children of \<open>p\<close>.  The code breaks this in \<open>rebalance\<close>: the comment says that the
  parent of the only remaining child is removed, but the parent stays in the children
  of its own parent while its \<open>parent\<close> field is set to null.  Insert 30 unit squares
  (the root then has 30 leaf children), insert \<open>B\<close> whose bbox is that of the first
  square (node 1 becomes an internal node with two leaves) and remove \<open>B\<close>: node 1 is
  still a child of the root, and its parent is null.
\<close>

theorem detached_parent_stays_child:
  "(case andThen (insertUnitSquares 10 30)
           (\<lambda>st. andThen (insertElement 10 elemB st) (removeElement 10 elemB)) of
      Inl e \<Rightarrow> False
    | Inr st \<Rightarrow> root_node (fst st) = 0 \<and> 1 \<in> set (children (heap (snd st) 0)) \<and>
                parent (heap (snd st) 1) = None \<and> content (heap (snd st) 1) = None \<and>
                children (heap (snd st) 1) = [] \<and> length (children (heap (snd st) 0)) = 31)"
proof -
  have "insertUnitSquares 10 30 = Inr (flatImage 30, flatWorld 30)"
    unfolding fuel10 by (rule insertUnitSquares_flat) simp
  then have "andThen (insertUnitSquares 10 30)
           (\<lambda>st. andThen (insertElement 10 elemB st) (removeElement 10 elemB)) =
         andThen (insertElement 10 elemB (flatImage 30, flatWorld 30)) (removeElement 10 elemB)"
    by (simp add: andThen_def)
  then show ?thesis
    using detached_parent_on_flat_30 by (simp only:)
qed

section \<open>Which bounding boxes an insertion rejects\<close>

text \<open>
  Claim C6: an element whose bbox has a non-finite coordinate or a negative area is
  rejected before anything is changed.  The constructor of the command throws
  \<open>Elements in the image cannot have NaN bounding boxes\<close>, but the only test under that
  message is \<open>isNaN(bbox.area)\<close>.  The bbox at \<open>x = NaN\<close> of width and height 1 has area 1,
  so the element is accepted: it is inserted into the tree and into the registry.  So are
  the element at \<open>x = +\<infinity>\<close> and the element of height \<open>-1\<close>, whose area is \<open>-1\<close>.
\<close>

theorem insert_accepts_non_finite_bbox:
  "rect_x (getBBox elemNaNPos) = NaN \<and>
   (case insertElement 10 elemNaNPos (newEditorImage initialWorld) of
      Inl e \<Rightarrow> False
    | Inr st \<Rightarrow> content (rootOf st) = Some elemNaNPos \<and> leafCount 10 st = Inr 1 \<and>
                lookupElement (fst st) (getId elemNaNPos) = Found elemNaNPos) \<and>
   rect_x (getBBox elemInf) = PInf \<and>
   (case insertElement 10 elemInf (newEditorImage initialWorld) of
      Inl e \<Rightarrow> False
    | Inr st \<Rightarrow> content (rootOf st) = Some elemInf \<and> leafCount 10 st = Inr 1 \<and>
                lookupElement (fst st) (getId elemInf) = Found elemInf) \<and>
   area (getBBox elemNeg) = Fin (- 1) \<and>
   (case insertElement 10 elemNeg (newEditorImage initialWorld) of
      Inl e \<Rightarrow> False
    | Inr st \<Rightarrow> content (rootOf st) = Some elemNeg \<and> leafCount 10 st = Inr 1 \<and>
                lookupElement (fst st) (getId elemNeg) = Found elemNeg)"
  by (simp add: evs cong: evc)

section \<open>The registry after a removal\<close>









section \<open>The version counter\<close>

text \<open>
  Claim C9, as stated: the version ids given to the nodes of one image are unaffected by
  operations on another image.  \<open>idCounter\<close> is a static field, one for all images.  With
  two images, inserting \<open>U\<close> into the second gives its root the id 2; after an insertion
  into the first image the same insertion gives it the id 3.
\<close>

theorem version_ids_depend_on_other_image:
  "(case twoImages of (img1, img2, s) \<Rightarrow>
      (case insertElement 10 elemU (img2, s) of
         Inl e \<Rightarrow> False
       | Inr stA \<Rightarrow>
           (case andThen (insertElement 10 elemX (img1, s))
                   (\<lambda>st1. insertElement 10 elemU (img2, snd st1)) of
              Inl e \<Rightarrow> False
            | Inr stB \<Rightarrow> id_node (rootOf stA) = 2 \<and> id_node (rootOf stB) = 3)))"
  by (simp add: evs cong: evc)

lemma recomputeBBox_idCounter:
  "recomputeBBox fuel this b s = Inr s' \<Longrightarrow> idCounter s' = idCounter s"
proof (induction fuel arbitrary: this b s)
  case 0
  then show ?case by simp
next
  case (Suc fuel)
  let ?s1 = "setBBox this (case content (heap s this) of Some c \<Rightarrow> getBBox c
     | None \<Rightarrow> childrenBBox s this (children (heap s this)) True Rect2_empty) s"
  have i: "idCounter ?s1 = idCounter s" by (simp add: setBBox_def)
  from Suc.prems have "s' = ?s1 \<or> (\<exists>p. recomputeBBox fuel p True ?s1 = Inr s')"
    by (auto simp: Let_def split: if_splits option.splits)
  then show ?case using i Suc.IH by auto
qed

lemma updateParentsOf_idCounter:
  "updateParentsOf fuel this r cs s = Inr s' \<Longrightarrow> idCounter s' = idCounter s"
proof (induction fuel this r cs s arbitrary: s' rule: updateParentsOf.induct)
  case (1 fuel this recursive s)
  then show ?case by simp
next
  case (2 fuel this recursive child rest s)
  let ?s1 = "setParent child (Some this) s"
  let ?sub = "if recursive then (case fuel of 0 \<Rightarrow> Inl OutOfFuel
     | Suc f \<Rightarrow> updateParentsOf f child recursive (children (heap ?s1 child)) ?s1) else Inr ?s1"
  have i: "idCounter ?s1 = idCounter s" by (simp add: setParent_def)
  from "2.prems" obtain s2 where sub: "?sub = Inr s2"
    and rest: "updateParentsOf fuel this recursive rest s2 = Inr s'"
    by (cases ?sub) (simp_all add: Let_def)
  have "idCounter s2 = idCounter ?s1"
  proof (cases recursive)
    case False
    with sub show ?thesis by simp
  next
    case True
    with sub obtain f where f: "fuel = Suc f"
      and g: "updateParentsOf f child recursive (children (heap ?s1 child)) ?s1 = Inr s2"
      by (cases fuel) simp_all
    show ?thesis by (rule "2.IH"(1) [OF refl True f g])
  qed
  moreover have "idCounter s' = idCounter s2"
    by (rule "2.IH"(2) [OF refl sub rest])
  ultimately show ?case using i by simp
qed

lemma rebalance_idCounter:
  "rebalance fuel this s = Inr s' \<Longrightarrow> idCounter s' = idCounter s"
  by (auto simp: rebalance_def Let_def updateParents_def setChildren_def setParent_def
      split: option.splits if_splits sum.splits
      dest!: recomputeBBox_idCounter updateParentsOf_idCounter)

lemma setters_idCounter [simp]:
  "idCounter (setContent r c s) = idCounter s"
  "idCounter (setBBox r b s) = idCounter s"
  "idCounter (setChildren r cs s) = idCounter s"
  "idCounter (setParent r p s) = idCounter s"
  by (simp_all add: setContent_def setBBox_def setChildren_def setParent_def)

lemma newImageNode_idCounter [simp]:
  "idCounter (snd (newImageNode p s)) = idCounter s + 1"
  by (simp add: newImageNode_def)

lemma onContentChange_idCounter [simp]:
  "idCounter (onContentChange n s) = idCounter s + 1"
  by (simp add: onContentChange_def)

lemma newImageNode_idCounterD:
  "newImageNode p s = (r, s2) \<Longrightarrow> idCounter s2 = idCounter s + 1"
  by (auto simp: newImageNode_def)

lemma addLeaf_idCounter:
  "addLeaf fuel this leaf s0 = Inr (n, s') \<Longrightarrow> idCounter s0 < idCounter s'"
proof (induction fuel arbitrary: this s0 n s')
  case 0
  then show ?case by simp
next
  case (Suc fuel)
  from Suc.prems show ?case
    apply (simp only: addLeaf.simps Let_def)
    apply (auto simp: updateParents_def split: if_splits sum.splits prod.splits
        dest!: newImageNode_idCounterD recomputeBBox_idCounter updateParentsOf_idCounter rebalance_idCounter Suc.IH)
    done
qed

lemma rebalanceAll_idCounter:
  "rebalanceAll fuel cs s = Inr s' \<Longrightarrow> idCounter s' = idCounter s"
  by (induction cs arbitrary: s) (auto split: sum.splits dest!: rebalance_idCounter)

lemma remove_idCounter:
  "remove fuel c s = Inr s' \<Longrightarrow> idCounter s' = idCounter s"
  by (auto simp: remove_def Let_def split: option.splits sum.splits
      dest!: rebalanceAll_idCounter recomputeBBox_idCounter)

text \<open>
  Claim C9, amended: there is one version counter for the whole program.  Every node that
  is constructed and every \<open>onContentChange\<close> takes the current value of that counter as
  the node's id and increments it, in whichever image the node is; so every insertion into
  any image advances the counter that the next ids of every image are taken from.  A
  removal leaves the counter as it is.
\<close>

theorem idCounter_shared:
  "id_node (heap (snd (newImageNode p s)) (fst (newImageNode p s))) = idCounter s \<and>
   idCounter (snd (newImageNode p s)) = idCounter s + 1 \<and>
   id_node (heap (onContentChange n s) n) = idCounter s \<and>
   idCounter (onContentChange n s) = idCounter s + 1 \<and>
   (apply_cmd fuel cmd (img, s) = Inr (img', s') \<longrightarrow> idCounter s < idCounter s') \<and>
   (unapply fuel cmd (img, s) = Inr (img', s') \<longrightarrow> idCounter s' = idCounter s)"
proof -
  have a: "idCounter s < idCounter s'" if "apply_cmd fuel cmd (img, s) = Inr (img', s')"
    using that
    by (auto simp: apply_cmd_def addElementDirectly_def Let_def split: sum.splits
        dest!: addLeaf_idCounter)
  have u: "idCounter s' = idCounter s" if "unapply fuel cmd (img, s) = Inr (img', s')"
    using that
    by (auto simp: unapply_def split: sum.splits option.splits dest!: remove_idCounter)
  show ?thesis using a u by (simp add: newImageNode_def onContentChange_def)
qed

text \<open>Claim C9, amended, on the first of two images: an insertion, then its removal.\<close>

theorem idCounter_shared_witness:
  "(\<exists>img' s'. apply_cmd 10 \<lparr>element = elemX, applyByFlattening = False\<rparr>
       (fst twoImages, snd (snd twoImages)) = Inr (img', s') \<and>
       idCounter (snd (snd twoImages)) < idCounter s' \<and>
       (\<exists>img2 s2. unapply 10 \<lparr>element = elemX, applyByFlattening = False\<rparr> (img', s') = Inr (img2, s2) \<and>
          idCounter s2 = idCounter s'))"
proof -
  let ?c = "\<lparr>element = elemX, applyByFlattening = False\<rparr>"
  let ?img = "fst twoImages"
  let ?s = "snd (snd twoImages)"
  obtain img' s' where a: "apply_cmd 10 ?c (?img, ?s) = Inr (img', s')"
    by (simp add: evs cong: evc)
  obtain img2 s2 where u: "unapply 10 ?c (img', s') = Inr (img2, s2)"
    using a
    by (auto simp add: evs cong: evc)
  from idCounter_shared [of None ?s 0 10 ?c ?img img' s'] a have "idCounter ?s < idCounter s'" by blast
  moreover from idCounter_shared [of None s' 0 10 ?c img' img2 s2] u have "idCounter s2 = idCounter s'"
    by blast
  ultimately show ?thesis using a u by blast
qed

section \<open>Leaves have content\<close>

text \<open>
  Claim C10: every node in the list returned by \<open>getLeavesIntersectingRegion\<close> and by
  \<open>getLeaves\<close> has content, so \<open>sortLeavesByZIndex\<close> on such a list does not fail, and
  neither does reading the contents of the sorted list.
\<close>

theorem leaves_have_content:
  "getLeavesIntersectingRegion fuel s this region isTooSmall = Inr ls \<or>
   getLeaves fuel s this = Inr ls \<Longrightarrow>
   (\<forall>n\<in>set ls. content (heap s n) \<noteq> None) \<and>
   (\<exists>sorted_leaves. sortLeavesByZIndex s ls = Inr sorted_leaves \<and>
      (\<exists>cs. contentsOf s sorted_leaves = Inr cs))"
proof -
  assume a: "getLeavesIntersectingRegion fuel s this region isTooSmall = Inr ls \<or>
             getLeaves fuel s this = Inr ls"
  have c: "\<forall>n\<in>set ls. content (heap s n) \<noteq> None"
    using a
  proof
    assume "getLeavesIntersectingRegion fuel s this region isTooSmall = Inr ls"
    then show ?thesis
      using toNextLoop_content [of fuel s region isTooSmall "[this]" "[]" ls]
      by (simp add: getLeavesIntersectingRegion_def)
  next
    assume g: "getLeaves fuel s this = Inr ls"
    show ?thesis
    proof (cases "content (heap s this) \<noteq> None")
      case True
      with g show ?thesis by (auto simp: getLeaves_def)
    next
      case False
      with g show ?thesis
        using getLeavesOf_content [of fuel s "children (heap s this)" "[]" ls]
        by (simp add: getLeaves_def)
    qed
  qed
  let ?k = "\<lambda>n. case content (heap s n) of Some c \<Rightarrow> getZIndex c | None \<Rightarrow> 0"
  have st: "sortLeavesByZIndex s ls = Inr (sort_key ?k ls)"
    using c by (rule sortLeavesByZIndex_ok)
  have "\<forall>n\<in>set (sort_key ?k ls). content (heap s n) \<noteq> None"
    using c by simp
  then have "\<exists>cs. contentsOf s (sort_key ?k ls) = Inr cs"
    by (rule contentsOf_ok)
  with c st show ?thesis by simp
qed

text \<open>Claim C10 on the leaves of the image \<open>twoElems\<close>.\<close>

theorem leaves_have_content_witness:
  "getLeavesIntersectingRegion 10 (snd twoElems) 0 (mkRect 0 0 10 10) None = Inr [2, 1] \<and>
   content (heap (snd twoElems) 2) \<noteq> None \<and> content (heap (snd twoElems) 1) \<noteq> None \<and>
   (\<exists>sorted_leaves. sortLeavesByZIndex (snd twoElems) [2, 1] = Inr sorted_leaves \<and>
      (\<exists>cs. contentsOf (snd twoElems) sorted_leaves = Inr cs))"
  using leaves_have_content [OF disjI1 [OF twoElems_leaves]] twoElems_leaves by simp

end
